theory Spec2Isabelle
  imports Main "HOL-Library.Word"
begin

section \<open>Go values\<close>

text \<open>
  A Go call either returns or panics (here: a nil pointer or nil interface is
  dereferenced). An \<open>error\<close> is identified with the message that
  \<^verbatim>\<open>fmt.Errorf\<close> formats; the Go value \<^verbatim>\<open>nil\<close> of type
  \<open>error\<close> is \<open>None\<close>.
\<close>

datatype 'a go_result = Panic | Return 'a

type_synonym error = string

section \<open>The protobuf messages read by rule.go\<close>

text \<open>
  \<^verbatim>\<open>namingpb.MatchString\<close>. The source compares \<open>Type\<close> with
  \<^verbatim>\<open>MatchString_REGEX\<close> and \<open>ValueType\<close> with \<^verbatim>\<open>MatchString_TEXT\<close> and
  \<^verbatim>\<open>MatchString_VARIABLE\<close>; every other value of the two enumerations is kept
  apart from these. \<open>Value\<close> is a pointer to a string wrapper, \<open>None\<close> when nil.
\<close>

datatype MatchString_MatchStringType =
  MatchString_EXACT | MatchString_REGEX | MatchString_OTHER_TYPE nat

datatype MatchString_ValueType =
  MatchString_TEXT | MatchString_VARIABLE | MatchString_OTHER_VALUE_TYPE nat

record MatchString =
  Type :: MatchString_MatchStringType
  Value :: "string option"
  ValueType :: MatchString_ValueType

text \<open>The generated getters are nil-safe: on a nil receiver they return the zero value.\<close>

definition StringValue_GetValue :: "string option \<Rightarrow> string" where
  "StringValue_GetValue w = (case w of None \<Rightarrow> [] | Some v \<Rightarrow> v)"

definition MatchString_GetValue :: "MatchString option \<Rightarrow> string option" where
  "MatchString_GetValue m = (case m of None \<Rightarrow> None | Some mv \<Rightarrow> Value mv)"

section \<open>Compiled matchers and the rule cache\<close>

text \<open>
  A compiled \<^verbatim>\<open>*regexp.Regexp\<close>: \<open>obj\<close> is the identity of the object (the
  number of the call of \<^verbatim>\<open>regexp.Compile\<close> that allocated it), \<open>source\<close> the
  text it was compiled from.
\<close>

datatype Regexp = Regexp (obj: nat) (source: string)

type_synonym RuleCache = "string \<rightharpoonup> Regexp"

text \<open>
  Modelled from the spec: \<^verbatim>\<open>model.RuleCache\<close> and \<^verbatim>\<open>model.NewRuleCache\<close> are
  declared outside rule.go. The cache is a mapping from pattern source text to a
  compiled matcher; a lookup does not change it; a put inserts if absent.
\<close>

definition NewRuleCache :: RuleCache where
  "NewRuleCache = Map.empty"

definition GetRegexMatcher :: "RuleCache \<Rightarrow> string \<Rightarrow> Regexp option" where
  "GetRegexMatcher c pattern = c pattern"

definition PutRegexMatcher :: "RuleCache \<Rightarrow> string \<Rightarrow> Regexp \<Rightarrow> RuleCache" where
  "PutRegexMatcher c pattern matcher =
     (case c pattern of None \<Rightarrow> c(pattern \<mapsto> matcher) | Some _ \<Rightarrow> c)"

section \<open>buildCacheFromMatcher\<close>

text \<open>
  What a run of \<^verbatim>\<open>buildCacheFromMatcher\<close> works on: \<open>cache\<close> is the
  content of its parameter \<^verbatim>\<open>ruleCache\<close>, and two observation logs (most
  recent call first) hold the texts given to \<^verbatim>\<open>regexp.Compile\<close> and the calls
  of \<^verbatim>\<open>PutRegexMatcher\<close>.
\<close>

record run =
  cache :: RuleCache
  compileCalls :: "string list"
  putCalls :: "(string \<times> Regexp) list"

definition compilations :: "run \<Rightarrow> string \<Rightarrow> nat" where
  "compilations s p = count_list (compileCalls s) p"

definition insertions :: "run \<Rightarrow> string \<Rightarrow> nat" where
  "insertions s p = count_list (map fst (putCalls s)) p"

definition MatchAll :: string where
  "MatchAll = ''*''"

text \<open>The two errors the function builds with \<^verbatim>\<open>fmt.Errorf\<close>.\<close>

definition errEmptyVariable :: error where
  "errEmptyVariable = ''value of variable type can not be empty''"

definition errInvalidRegex :: "string \<Rightarrow> string \<Rightarrow> error" where
  "errInvalidRegex valueRawStr err =
     ''invalid regex expression '' @ valueRawStr @ '', error is '' @ err"

text \<open>
  \<^verbatim>\<open>regexp.Compile(valueRawStr, regexp.RE2)\<close> of the library regexp2. The
  library decides which texts compile: \<open>re p\<close> is the message of the error it
  returns for \<open>p\<close>, \<open>None\<close> when \<open>p\<close> compiles. Every call
  is logged; a successful call allocates a new object.
\<close>

definition regexp_Compile ::
  "(string \<Rightarrow> string option) \<Rightarrow> string \<Rightarrow> run \<Rightarrow> (string + Regexp) \<times> run" where
  "regexp_Compile re p s =
     (case re p of
        Some err \<Rightarrow> (Inl err, s\<lparr>compileCalls := p # compileCalls s\<rparr>)
      | None \<Rightarrow> (Inr (Regexp (length (compileCalls s)) p),
                 s\<lparr>compileCalls := p # compileCalls s\<rparr>))"

definition ruleCache_PutRegexMatcher :: "string \<Rightarrow> Regexp \<Rightarrow> run \<Rightarrow> run" where
  "ruleCache_PutRegexMatcher p m s =
     s\<lparr>cache := PutRegexMatcher (cache s) p m, putCalls := (p, m) # putCalls s\<rparr>"

text \<open>
  The body of the \<^verbatim>\<open>for _, metaValue := range metadata\<close> loop, for one
  entry: it goes on with the next entry (\<^verbatim>\<open>continue\<close>, or the end of the
  body), or leaves the function.
\<close>

datatype flow = Continue | Exit "error option go_result"

definition visit ::
  "(string \<Rightarrow> string option) \<Rightarrow> MatchString option \<Rightarrow> run \<Rightarrow> flow \<times> run" where
  "visit re metaValue s =
     (let valueRawStr = StringValue_GetValue (MatchString_GetValue metaValue) in
      if valueRawStr = MatchAll then (Continue, s)
      else (case metaValue of
        None \<Rightarrow> (Exit Panic, s)
      | Some mv \<Rightarrow>
          if ValueType mv = MatchString_VARIABLE \<and> valueRawStr = [] then
            (Exit (Return (Some errEmptyVariable)), s)
          else if Type mv \<noteq> MatchString_REGEX \<or> ValueType mv \<noteq> MatchString_TEXT then
            (Continue, s)
          else if GetRegexMatcher (cache s) valueRawStr \<noteq> None then (Continue, s)
          else (case regexp_Compile re valueRawStr s of
            (Inl err, s1) \<Rightarrow> (Exit (Return (Some (errInvalidRegex valueRawStr err))), s1)
          | (Inr regexValue, s1) \<Rightarrow>
              (Continue, ruleCache_PutRegexMatcher valueRawStr regexValue s1))))"

text \<open>
  The loop. A Go map is iterated in an order the runtime picks: the metadata is
  the list of its entries in the order of this run, and every statement below
  holds for every order.
\<close>

fun range_metadata ::
  "(string \<Rightarrow> string option) \<Rightarrow> (string \<times> MatchString option) list \<Rightarrow> run
    \<Rightarrow> error option go_result \<times> run" where
  "range_metadata re [] s = (Return None, s)"
| "range_metadata re ((k, metaValue) # rest) s =
     (case visit re metaValue s of
        (Continue, s1) \<Rightarrow> range_metadata re rest s1
      | (Exit r, s1) \<Rightarrow> (r, s1))"

definition buildCacheFromMatcher ::
  "(string \<Rightarrow> string option) \<Rightarrow> (string \<times> MatchString option) list \<Rightarrow> run
    \<Rightarrow> error option go_result \<times> run" where
  "buildCacheFromMatcher re metadata s =
     (if length metadata = 0 then (Return None, s) else range_metadata re metadata s)"

text \<open>
  The pattern text for which an entry reaches the lookup in the cache: the
  entries that pass the three tests before it. Used to state facts about
  \<open>visit\<close>; the function itself does not compute it.
\<close>

definition regexText :: "MatchString option \<Rightarrow> string option" where
  "regexText m =
     (case m of
        None \<Rightarrow> None
      | Some mv \<Rightarrow>
          if Type mv = MatchString_REGEX \<and> ValueType mv = MatchString_TEXT
             \<and> StringValue_GetValue (Value mv) \<noteq> MatchAll
          then Some (StringValue_GetValue (Value mv)) else None)"

section \<open>The rule document\<close>

text \<open>
  \<^verbatim>\<open>model.EventType\<close> is declared outside rule.go; the dispatch table has
  the two keys \<^verbatim>\<open>model.EventRouting\<close> and \<^verbatim>\<open>model.EventRateLimiting\<close>, and
  \<open>EventOther\<close> stands for every other value of the type.
\<close>

datatype EventType = EventRouting | EventRateLimiting | EventOther nat

text \<open>
  \<^verbatim>\<open>namingpb.DiscoverResponse\<close>, as far as rule.go reads it: the type tag, and
  the service with its two wrapped strings. Message fields of generated protobuf
  code are pointers (\<open>None\<close> when nil). \<open>resp_body\<close> is the rest of the
  message, which only the assistants read.
\<close>

record namingpb_Service =
  svc_Namespace :: "string option"
  svc_Name :: "string option"

record 'w DiscoverResponse =
  resp_Type :: int
  resp_Service :: "namingpb_Service option"
  resp_body :: 'w

definition DiscoverResponse_GetType :: "'w DiscoverResponse \<Rightarrow> int" where
  "DiscoverResponse_GetType resp = resp_Type resp"

record ServiceKey =
  Namespace :: string
  Service :: string

text \<open>
  The interface \<^verbatim>\<open>ServiceRuleAssistant\<close>. Its implementations are outside
  rule.go, so an assistant is any triple of methods. A method that mutates its
  argument in place (\<^verbatim>\<open>SetDefault\<close> the message, \<^verbatim>\<open>Validate\<close> the cache)
  returns the new content; the methods are taken to return.
\<close>

record ('w, 'v) ServiceRuleAssistant =
  ParseRuleValue :: "'w DiscoverResponse \<Rightarrow> 'v option \<times> string"
  SetDefault :: "'v option \<Rightarrow> 'v option"
  Validate :: "'v option \<Rightarrow> RuleCache option \<Rightarrow> error option \<times> RuleCache option"

text \<open>
  What rule.go uses of its package and of package model without containing it:
  \<^verbatim>\<open>GetEventType\<close>, the two assistants of the dispatch table, and the zero
  value of \<^verbatim>\<open>model.EventType\<close>.
\<close>

record ('w, 'v) package =
  GetEventType :: "int \<Rightarrow> EventType"
  RoutingAssistant :: "('w, 'v) ServiceRuleAssistant"
  RateLimitingAssistant :: "('w, 'v) ServiceRuleAssistant"
  EventType_zero :: EventType

definition eventTypeToAssistant ::
  "('w, 'v) package \<Rightarrow> EventType \<rightharpoonup> ('w, 'v) ServiceRuleAssistant" where
  "eventTypeToAssistant pkg =
     [EventRouting \<mapsto> RoutingAssistant pkg, EventRateLimiting \<mapsto> RateLimitingAssistant pkg]"

record ('w, 'v) ServiceRuleInProto =
  ServiceKey :: "ServiceKey option"
  initialized :: bool
  revision :: string
  ruleValue :: "'v option"
  ruleCache :: "RuleCache option"
  eventType :: EventType
  assistant :: "('w, 'v) ServiceRuleAssistant option"
  CacheLoaded :: "32 word"
  validateError :: "error option"

text \<open>\<^verbatim>\<open>&ServiceRuleInProto{}\<close>: every field has its zero value.\<close>

definition zero_ServiceRuleInProto :: "('w, 'v) package \<Rightarrow> ('w, 'v) ServiceRuleInProto" where
  "zero_ServiceRuleInProto pkg =
     \<lparr>ServiceKey = None, initialized = False, revision = [], ruleValue = None,
      ruleCache = None, eventType = EventType_zero pkg, assistant = None,
      CacheLoaded = 0, validateError = None\<rparr>"

definition NewServiceRuleInProto ::
  "('w, 'v) package \<Rightarrow> 'w DiscoverResponse option \<Rightarrow> ('w, 'v) ServiceRuleInProto go_result" where
  "NewServiceRuleInProto pkg resp =
     (let value = zero_ServiceRuleInProto pkg in
      case resp of
        None \<Rightarrow> Return (value\<lparr>initialized := False\<rparr>)
      | Some r \<Rightarrow>
          (case resp_Service r of
             None \<Rightarrow> Panic
           | Some svc \<Rightarrow>
               (let value = value\<lparr>ServiceKey := Some
                        \<lparr>Namespace = StringValue_GetValue (svc_Namespace svc),
                         Service = StringValue_GetValue (svc_Name svc)\<rparr>\<rparr>;
                    value = value\<lparr>initialized := True\<rparr>;
                    value = value\<lparr>eventType := GetEventType pkg (DiscoverResponse_GetType r)\<rparr>;
                    value = value\<lparr>assistant := eventTypeToAssistant pkg (eventType value)\<rparr>
                in case assistant value of
                     None \<Rightarrow> Panic
                   | Some a \<Rightarrow>
                       (let parsed = ParseRuleValue a r;
                            value = value\<lparr>ruleValue := fst parsed, revision := snd parsed\<rparr>
                        in Return (value\<lparr>ruleCache := Some NewRuleCache\<rparr>)))))"

definition IsCacheLoaded :: "('w, 'v) ServiceRuleInProto \<Rightarrow> bool" where
  "IsCacheLoaded s = (0 <s CacheLoaded s)"

text \<open>
  \<^verbatim>\<open>ValidateAndBuildCache\<close> returns the error of the call together with the
  document after the call. The method call on a nil interface panics.
\<close>

definition ValidateAndBuildCache ::
  "('w, 'v) ServiceRuleInProto \<Rightarrow> (error option \<times> ('w, 'v) ServiceRuleInProto) go_result" where
  "ValidateAndBuildCache s =
     (case assistant s of
        None \<Rightarrow> Panic
      | Some a \<Rightarrow>
          (let s1 = s\<lparr>ruleValue := SetDefault a (ruleValue s)\<rparr>;
               validated = Validate a (ruleValue s1) (ruleCache s1);
               s2 = s1\<lparr>ruleCache := snd validated\<rparr>
           in case fst validated of
                Some err \<Rightarrow> Return (Some err, s2\<lparr>validateError := Some err\<rparr>)
              | None \<Rightarrow> Return (None, s2)))"

text \<open>The accessors. The embedded \<^verbatim>\<open>*model.ServiceKey\<close> is read through its pointer.\<close>

definition GetNamespace :: "('w, 'v) ServiceRuleInProto \<Rightarrow> string go_result" where
  "GetNamespace s =
     (if initialized s
      then (case ServiceKey s of None \<Rightarrow> Panic | Some key \<Rightarrow> Return (Namespace key))
      else Return [])"

definition GetService :: "('w, 'v) ServiceRuleInProto \<Rightarrow> string go_result" where
  "GetService s =
     (if initialized s
      then (case ServiceKey s of None \<Rightarrow> Panic | Some key \<Rightarrow> Return (Service key))
      else Return [])"

definition GetValue :: "('w, 'v) ServiceRuleInProto \<Rightarrow> 'v option" where
  "GetValue s = ruleValue s"

definition GetType :: "('w, 'v) ServiceRuleInProto \<Rightarrow> EventType" where
  "GetType s = eventType s"

definition IsInitialized :: "('w, 'v) ServiceRuleInProto \<Rightarrow> bool" where
  "IsInitialized s = initialized s"

definition GetRevision :: "('w, 'v) ServiceRuleInProto \<Rightarrow> string" where
  "GetRevision s = revision s"

definition GetRuleCache :: "('w, 'v) ServiceRuleInProto \<Rightarrow> RuleCache option" where
  "GetRuleCache s = ruleCache s"

definition GetValidateError :: "('w, 'v) ServiceRuleInProto \<Rightarrow> error option" where
  "GetValidateError s = validateError s"

section \<open>Sample inputs\<close>

text \<open>
  Concrete inputs on which the theorems below are run: metadata entries, a
  verdict of the regular-expression library, a run that starts on a new cache,
  and a package with its assistants.
\<close>

abbreviation after ::
  "(string \<Rightarrow> string option) \<Rightarrow> (string \<times> MatchString option) list \<Rightarrow> run \<Rightarrow> run" where
  "after re metadata s \<equiv> snd (buildCacheFromMatcher re metadata s)"

definition sample_regex :: "string \<Rightarrow> MatchString option" where
  "sample_regex p =
     Some \<lparr>Type = MatchString_REGEX, Value = Some p, ValueType = MatchString_TEXT\<rparr>"

definition sample_exact :: "string \<Rightarrow> MatchString option" where
  "sample_exact p =
     Some \<lparr>Type = MatchString_EXACT, Value = Some p, ValueType = MatchString_TEXT\<rparr>"

definition sample_variable :: "MatchString" where
  "sample_variable =
     \<lparr>Type = MatchString_REGEX, Value = None, ValueType = MatchString_VARIABLE\<rparr>"

definition sample_re :: "string \<Rightarrow> string option" where
  "sample_re p = (if p = ''(unclosed'' then Some ''missing closing )'' else None)"

definition new_run :: run where
  "new_run = \<lparr>cache = NewRuleCache, compileCalls = [], putCalls = []\<rparr>"

definition plain_assistant :: "(unit, unit) ServiceRuleAssistant" where
  "plain_assistant =
     \<lparr>ParseRuleValue = (\<lambda>resp. (Some (), ''rev-1'')),
      SetDefault = (\<lambda>message. message),
      Validate = (\<lambda>message c. (None, c))\<rparr>"

text \<open>
  An assistant whose \<^verbatim>\<open>Validate\<close> depends on the cache it is given: it
  fails while the cache has no matcher for one text, which it then inserts.
\<close>

definition warming_assistant :: "(unit, unit) ServiceRuleAssistant" where
  "warming_assistant =
     \<lparr>ParseRuleValue = (\<lambda>resp. (Some (), ''rev-1'')),
      SetDefault = (\<lambda>message. message),
      Validate = (\<lambda>message c.
        case c of
          None \<Rightarrow> (Some ''no cache'', None)
        | Some m \<Rightarrow>
            (case GetRegexMatcher m ''a.*'' of
               None \<Rightarrow> (Some ''matcher not cached'',
                         Some (PutRegexMatcher m ''a.*'' (Regexp 0 ''a.*'')))
             | Some x \<Rightarrow> (None, Some m)))\<rparr>"

definition sample_package :: "(unit, unit) package" where
  "sample_package =
     \<lparr>GetEventType = (\<lambda>t. if t = 1 then EventRouting
                          else if t = 2 then EventRateLimiting else EventOther (nat t)),
      RoutingAssistant = warming_assistant,
      RateLimitingAssistant = plain_assistant,
      EventType_zero = EventOther 0\<rparr>"

definition sample_response :: "int \<Rightarrow> unit DiscoverResponse" where
  "sample_response t =
     \<lparr>resp_Type = t,
      resp_Service = Some \<lparr>svc_Namespace = Some ''Test'', svc_Name = Some ''svc''\<rparr>,
      resp_body = ()\<rparr>"

text \<open>The documents of a routing response: as constructed, after a first and after a second validation.\<close>

definition routing_doc :: "(unit, unit) ServiceRuleInProto" where
  "routing_doc =
     \<lparr>ServiceKey = Some \<lparr>Namespace = ''Test'', Service = ''svc''\<rparr>, initialized = True,
      revision = ''rev-1'', ruleValue = Some (), ruleCache = Some NewRuleCache,
      eventType = EventRouting, assistant = Some warming_assistant,
      CacheLoaded = 0, validateError = None\<rparr>"

definition routing_doc_failed :: "(unit, unit) ServiceRuleInProto" where
  "routing_doc_failed =
     routing_doc\<lparr>ruleCache := Some (NewRuleCache(''a.*'' \<mapsto> Regexp 0 ''a.*'')),
                 validateError := Some ''matcher not cached''\<rparr>"

section \<open>Facts about one entry and about the loop\<close>

lemma regexText_Some_iff:
  "regexText m = Some p \<longleftrightarrow>
     (\<exists>mv. m = Some mv \<and> Type mv = MatchString_REGEX \<and> ValueType mv = MatchString_TEXT
        \<and> StringValue_GetValue (Value mv) = p \<and> p \<noteq> MatchAll)"
  by (auto simp: regexText_def split: option.splits)

lemma visit_plain:
  assumes "regexText m = None"
  shows "snd (visit re m t) = t" and "fst (visit re m t) = fst (visit re m s)"
  using assms
  by (auto simp: visit_def regexText_def Let_def MatchString_GetValue_def
      split: option.splits if_splits)

lemma visit_regex:
  assumes "regexText m = Some p"
  shows "visit re m t =
     (if cache t p \<noteq> None then (Continue, t)
      else case re p of
        Some c \<Rightarrow> (Exit (Return (Some (errInvalidRegex p c))),
                   t\<lparr>compileCalls := p # compileCalls t\<rparr>)
      | None \<Rightarrow> (Continue,
                 t\<lparr>compileCalls := p # compileCalls t,
                   cache := (cache t)(p \<mapsto> Regexp (length (compileCalls t)) p),
                   putCalls := (p, Regexp (length (compileCalls t)) p) # putCalls t\<rparr>))"
proof -
  obtain mv where m: "m = Some mv" "Type mv = MatchString_REGEX"
    "ValueType mv = MatchString_TEXT" "StringValue_GetValue (Value mv) = p" "p \<noteq> MatchAll"
    using assms by (auto simp: regexText_Some_iff)
  show ?thesis
    by (simp add: visit_def Let_def MatchString_GetValue_def m GetRegexMatcher_def
        regexp_Compile_def ruleCache_PutRegexMatcher_def PutRegexMatcher_def
        split: option.splits)
qed

lemma visit_exit_not_ok: "visit re m s = (Exit r, s1) \<Longrightarrow> r \<noteq> Return None"
  by (auto simp: visit_def Let_def regexp_Compile_def
      split: if_splits option.splits prod.splits sum.splits)

lemma visit_cache_le: "cache s \<subseteq>\<^sub>m cache (snd (visit re m s))"
proof (cases "regexText m")
  case None
  then show ?thesis by (simp add: visit_plain(1))
next
  case (Some p)
  then show ?thesis by (auto simp: visit_regex map_le_def split: option.splits)
qed

lemma range_cache_le: "cache s \<subseteq>\<^sub>m cache (snd (range_metadata re md s))"
proof (induction md arbitrary: s)
  case Nil
  show ?case by simp
next
  case (Cons e md)
  obtain k m where e: "e = (k, m)" by (cases e)
  obtain f s1 where v: "visit re m s = (f, s1)" by (cases "visit re m s")
  have le1: "cache s \<subseteq>\<^sub>m cache s1"
    using visit_cache_le [of s re m] v by simp
  show ?case
  proof (cases f)
    case Continue
    then show ?thesis
      using e v le1 Cons.IH [of s1] by (auto intro: map_le_trans)
  next
    case (Exit r)
    then show ?thesis using e v le1 by simp
  qed
qed


lemma range_append:
  "range_metadata re (xs @ ys) s =
     (if fst (range_metadata re xs s) = Return None
      then range_metadata re ys (snd (range_metadata re xs s))
      else range_metadata re xs s)"
proof (induction xs arbitrary: s)
  case Nil
  show ?case by simp
next
  case (Cons e xs)
  obtain k m where e: "e = (k, m)" by (cases e)
  obtain f s1 where v: "visit re m s = (f, s1)" by (cases "visit re m s")
  show ?case
  proof (cases f)
    case Continue
    then show ?thesis using e v Cons.IH [of s1] by simp
  next
    case (Exit r)
    then show ?thesis using e v visit_exit_not_ok [of re m s r s1] by simp
  qed
qed

lemma build_eq_range: "buildCacheFromMatcher re md s = range_metadata re md s"
  by (cases md) (simp_all add: buildCacheFromMatcher_def)

lemma visit_other_text:
  assumes "regexText m \<noteq> Some p" and "visit re m s = (f, s1)"
  shows "compilations s1 p = compilations s p \<and> insertions s1 p = insertions s p
         \<and> cache s1 p = cache s p"
proof (cases "regexText m")
  case None
  then show ?thesis using visit_plain(1) [of m re s] assms by simp
next
  case (Some q)
  then have "q \<noteq> p" using assms by simp
  then show ?thesis
    using assms(2)
    by (auto simp: visit_regex [OF Some] compilations_def insertions_def
        split: if_splits option.splits)
qed

lemma range_other_text:
  assumes "\<forall>(k, m) \<in> set md. regexText m \<noteq> Some p"
  shows "compilations (snd (range_metadata re md s)) p = compilations s p
         \<and> insertions (snd (range_metadata re md s)) p = insertions s p
         \<and> cache (snd (range_metadata re md s)) p = cache s p"
  using assms
proof (induction md arbitrary: s)
  case Nil
  show ?case by simp
next
  case (Cons e md)
  obtain k m where e: "e = (k, m)" by (cases e)
  obtain f s1 where v: "visit re m s = (f, s1)" by (cases "visit re m s")
  have "regexText m \<noteq> Some p" using Cons.prems e by simp
  from visit_other_text [OF this v] have step:
    "compilations s1 p = compilations s p" "insertions s1 p = insertions s p"
    "cache s1 p = cache s p" by simp_all
  have rest: "\<forall>(k, m) \<in> set md. regexText m \<noteq> Some p" using Cons.prems by simp
  show ?case
  proof (cases f)
    case Continue
    then show ?thesis using e v step Cons.IH [OF rest, of s1] by simp
  next
    case (Exit r)
    then show ?thesis using e v step by simp
  qed
qed

lemma range_plain:
  assumes "\<forall>(k, m) \<in> set md. regexText m = None"
  shows "snd (range_metadata re md s) = s"
  using assms
proof (induction md arbitrary: s)
  case Nil
  show ?case by simp
next
  case (Cons e md)
  obtain k m where e: "e = (k, m)" by (cases e)
  have "regexText m = None" using Cons.prems e by simp
  then have v: "visit re m s = (fst (visit re m s), s)"
    using visit_plain(1) [of m re s] by (cases "visit re m s") simp
  have rest: "\<forall>(k, m) \<in> set md. regexText m = None" using Cons.prems by simp
  show ?case
  proof (cases "fst (visit re m s)")
    case Continue
    then show ?thesis using e v Cons.IH [OF rest, of s] by (simp split: prod.splits)
  next
    case (Exit r)
    then show ?thesis using e v by (simp split: prod.splits)
  qed
qed

lemma visit_bad_pattern:
  assumes "re p = Some c" and "visit re m s = (f, s1)"
  shows "insertions s1 p = insertions s p \<and> cache s1 p = cache s p
         \<and> (compilations s1 p \<noteq> compilations s p
              \<longrightarrow> f = Exit (Return (Some (errInvalidRegex p c))))"
proof (cases "regexText m = Some p")
  case False
  then show ?thesis using visit_other_text [OF False assms(2)] by simp
next
  case True
  then show ?thesis
    using assms by (auto simp: visit_regex [OF True] insertions_def split: if_splits)
qed

lemma range_bad_pattern:
  assumes "re p = Some c"
  shows "insertions (snd (range_metadata re md s)) p = insertions s p
         \<and> cache (snd (range_metadata re md s)) p = cache s p
         \<and> (compilations (snd (range_metadata re md s)) p \<noteq> compilations s p
              \<longrightarrow> fst (range_metadata re md s) = Return (Some (errInvalidRegex p c)))"
proof (induction md arbitrary: s)
  case Nil
  show ?case by simp
next
  case (Cons e md)
  obtain k m where e: "e = (k, m)" by (cases e)
  obtain f s1 where v: "visit re m s = (f, s1)" by (cases "visit re m s")
  note step = visit_bad_pattern [OF assms v]
  show ?case
  proof (cases f)
    case Continue
    then have "compilations s1 p = compilations s p" using step by auto
    then show ?thesis using Continue e v step Cons.IH [of s1] by simp
  next
    case (Exit r)
    then show ?thesis using e v step by simp
  qed
qed




lemma range_stops_at_exit:
  assumes "(k, m) \<in> set md" and "\<And>t. \<exists>r. fst (visit re m t) = Exit r"
  shows "fst (range_metadata re md s) \<noteq> Return None"
  using assms(1)
proof (induction md arbitrary: s)
  case Nil
  then show ?case by simp
next
  case (Cons e md)
  obtain k' m' where e: "e = (k', m')" by (cases e)
  obtain f s1 where v: "visit re m' s = (f, s1)" by (cases "visit re m' s")
  show ?case
  proof (cases f)
    case (Exit r)
    then show ?thesis using e v visit_exit_not_ok [of re m' s r s1] by simp
  next
    case Continue
    have "(k, m) \<noteq> e"
    proof
      assume "(k, m) = e"
      then have "m' = m" using e by simp
      then show False using assms(2) [of s] v Continue by simp
    qed
    then have "(k, m) \<in> set md" using Cons.prems by simp
    then show ?thesis using Continue e v Cons.IH [of s1] by simp
  qed
qed




section \<open>Properties of buildCacheFromMatcher\<close>

text \<open>
  C3. An entry whose value type is VARIABLE and whose value is empty makes the
  build fail with the error "value of variable type can not be empty" (the
  MalformedReference error), whatever its match type and whatever the cache
  holds: the loop body leaves the function with that error as soon as it reaches
  the entry; when the entries iterated before it caused no failure, that error is
  the result of the whole build; and metadata that contains such an entry never
  builds successfully, in any iteration order.
\<close>

theorem empty_variable_rejected:
  assumes "ValueType mv = MatchString_VARIABLE"
    and "StringValue_GetValue (Value mv) = []"
  shows "visit re (Some mv) s = (Exit (Return (Some errEmptyVariable)), s)
       \<and> (fst (buildCacheFromMatcher re xs s) = Return None \<longrightarrow>
            buildCacheFromMatcher re (xs @ (k, Some mv) # ys) s =
              (Return (Some errEmptyVariable), snd (buildCacheFromMatcher re xs s)))
       \<and> ((k, Some mv) \<in> set md \<longrightarrow> fst (buildCacheFromMatcher re md s) \<noteq> Return None)"
proof -
  have v: "visit re (Some mv) t = (Exit (Return (Some errEmptyVariable)), t)" for t
    using assms by (simp add: visit_def Let_def MatchString_GetValue_def MatchAll_def)
  have a: "buildCacheFromMatcher re (xs @ (k, Some mv) # ys) s =
             (Return (Some errEmptyVariable), snd (buildCacheFromMatcher re xs s))"
    if "fst (buildCacheFromMatcher re xs s) = Return None"
    using that by (simp add: build_eq_range range_append v)
  have b: "fst (buildCacheFromMatcher re md s) \<noteq> Return None" if "(k, Some mv) \<in> set md"
    using range_stops_at_exit [OF that, of re s] v by (simp add: build_eq_range)
  show ?thesis using v a b by blast
qed

theorem empty_variable_rejected_witness:
  "ValueType sample_variable = MatchString_VARIABLE
   \<and> StringValue_GetValue (Value sample_variable) = []
   \<and> fst (buildCacheFromMatcher sample_re [(''k1'', sample_regex ''^foo.*'')] new_run)
       = Return None
   \<and> fst (buildCacheFromMatcher sample_re
        ([(''k1'', sample_regex ''^foo.*'')] @ (''k2'', Some sample_variable) # []) new_run)
       = Return (Some ''value of variable type can not be empty'')"
proof -
  have h1: "ValueType sample_variable = MatchString_VARIABLE"
    by (simp add: sample_variable_def)
  have h2: "StringValue_GetValue (Value sample_variable) = []"
    by (simp add: sample_variable_def StringValue_GetValue_def)
  have h3: "fst (buildCacheFromMatcher sample_re [(''k1'', sample_regex ''^foo.*'')] new_run)
       = Return None"
    by (simp add: buildCacheFromMatcher_def visit_def sample_regex_def sample_re_def
        new_run_def NewRuleCache_def GetRegexMatcher_def PutRegexMatcher_def
        regexp_Compile_def ruleCache_PutRegexMatcher_def MatchString_GetValue_def
        StringValue_GetValue_def MatchAll_def Let_def)
  show ?thesis
    using empty_variable_rejected [OF h1 h2, where re = sample_re
        and xs = "[(''k1'', sample_regex ''^foo.*'')]" and s = new_run and k = "''k2''"
        and ys = "[]"] h1 h2 h3
    by (simp add: errEmptyVariable_def)
qed



text \<open>
  C5. When the regular-expression library rejects a text p with the error
  cause: an entry that asks for the compilation of p (type REGEX, value type
  TEXT, value p other than the wildcard, p not in the cache) makes the loop body
  leave the function with the error "invalid regex expression p, error is
  cause"; a build during which p was handed to the library returns that error;
  and no build ever inserts p: the number of insertions of p and the cache's
  entry for p are what they were before the build.
\<close>

theorem invalid_pattern_fails_build:
  assumes "re p = Some cause"
  shows "errInvalidRegex p cause = ''invalid regex expression '' @ p @ '', error is '' @ cause
       \<and> (Type mv = MatchString_REGEX \<and> ValueType mv = MatchString_TEXT
            \<and> StringValue_GetValue (Value mv) = p \<and> p \<noteq> MatchAll
            \<and> GetRegexMatcher (cache s) p = None \<longrightarrow>
            visit re (Some mv) s =
              (Exit (Return (Some (errInvalidRegex p cause))),
               s\<lparr>compileCalls := p # compileCalls s\<rparr>))
       \<and> (compilations (after re md s) p \<noteq> compilations s p \<longrightarrow>
            fst (buildCacheFromMatcher re md s) = Return (Some (errInvalidRegex p cause)))
       \<and> insertions (after re md s) p = insertions s p
       \<and> cache (after re md s) p = cache s p"
proof -
  have step: "visit re (Some mv) s =
      (Exit (Return (Some (errInvalidRegex p cause))), s\<lparr>compileCalls := p # compileCalls s\<rparr>)"
    if h: "Type mv = MatchString_REGEX" "ValueType mv = MatchString_TEXT"
      "StringValue_GetValue (Value mv) = p" "p \<noteq> MatchAll" "GetRegexMatcher (cache s) p = None"
  proof -
    have "regexText (Some mv) = Some p" using h by (simp add: regexText_Some_iff)
    from visit_regex [OF this, of re s] show ?thesis
      using h(5) assms by (simp add: GetRegexMatcher_def)
  qed
  show ?thesis
    using step range_bad_pattern [where re = re and p = p and c = cause and md = md and s = s, OF assms]
    by (simp add: build_eq_range errInvalidRegex_def)
qed

theorem invalid_pattern_fails_build_witness:
  "sample_re ''(unclosed'' = Some ''missing closing )''
   \<and> fst (buildCacheFromMatcher sample_re
        [(''k1'', sample_regex ''^foo.*''), (''k2'', sample_regex ''(unclosed'')] new_run)
       = Return (Some ''invalid regex expression (unclosed, error is missing closing )'')
   \<and> cache (after sample_re
        [(''k1'', sample_regex ''^foo.*''), (''k2'', sample_regex ''(unclosed'')] new_run)
        ''(unclosed'' = None
   \<and> insertions (after sample_re
        [(''k1'', sample_regex ''^foo.*''), (''k2'', sample_regex ''(unclosed'')] new_run)
        ''(unclosed'' = 0"
proof -
  let ?md = "[(''k1'', sample_regex ''^foo.*''), (''k2'', sample_regex ''(unclosed'')]"
  have h: "sample_re ''(unclosed'' = Some ''missing closing )''"
    by (simp add: sample_re_def)
  have log: "compileCalls (after sample_re ?md new_run) = [''(unclosed'', ''^foo.*'']"
    by (simp add: buildCacheFromMatcher_def visit_def sample_regex_def sample_re_def
        new_run_def NewRuleCache_def GetRegexMatcher_def PutRegexMatcher_def
        regexp_Compile_def ruleCache_PutRegexMatcher_def MatchString_GetValue_def
        StringValue_GetValue_def MatchAll_def Let_def)
  have handed: "compilations (after sample_re ?md new_run) ''(unclosed''
      \<noteq> compilations new_run ''(unclosed''"
    using log by (simp add: compilations_def new_run_def)
  have start: "insertions new_run ''(unclosed'' = 0" "cache new_run ''(unclosed'' = None"
    by (simp_all add: insertions_def new_run_def NewRuleCache_def)
  show ?thesis
    using invalid_pattern_fails_build [where re = sample_re and p = "''(unclosed''"
        and cause = "''missing closing )''" and md = ?md and s = new_run, OF h] h handed start
    by simp
qed

text \<open>
  C6. Only an entry of type REGEX and value type TEXT whose value is not the
  wildcard can make the build compile or cache a text. An entry whose value is
  the wildcard is skipped with nothing changed; an entry of type EXACT leaves the
  cache and both logs as they are, whatever its value type and value; a text p
  that is not the value of a REGEX/TEXT non-wildcard entry of the metadata is
  neither compiled nor inserted by the build, and the cache's entry for p stays
  what it was, which holds of the wildcard text for all metadata; and metadata
  whose entries all have type EXACT leaves the run untouched.
\<close>

theorem only_regex_text_compiled:
  "(StringValue_GetValue (MatchString_GetValue m) = MatchAll \<longrightarrow> visit re m s = (Continue, s))
   \<and> (Type mv = MatchString_EXACT \<longrightarrow> snd (visit re (Some mv) s) = s)
   \<and> ((\<forall>k e. (k, Some e) \<in> set md \<longrightarrow>
          \<not> (Type e = MatchString_REGEX \<and> ValueType e = MatchString_TEXT
             \<and> StringValue_GetValue (Value e) = p \<and> p \<noteq> MatchAll)) \<longrightarrow>
        compilations (after re md s) p = compilations s p
        \<and> insertions (after re md s) p = insertions s p
        \<and> cache (after re md s) p = cache s p)
   \<and> compilations (after re md s) MatchAll = compilations s MatchAll
   \<and> insertions (after re md s) MatchAll = insertions s MatchAll
   \<and> cache (after re md s) MatchAll = cache s MatchAll
   \<and> ((\<forall>k e. (k, Some e) \<in> set md \<longrightarrow> Type e = MatchString_EXACT) \<longrightarrow> after re md s = s)"
proof -
  have wild: "visit re m s = (Continue, s)"
    if "StringValue_GetValue (MatchString_GetValue m) = MatchAll"
    using that by (simp add: visit_def)
  have exact: "snd (visit re (Some mv) s) = s" if "Type mv = MatchString_EXACT"
  proof -
    have "regexText (Some mv) = None" using that by (simp add: regexText_def)
    then show ?thesis by (rule visit_plain(1))
  qed
  have other: "compilations (after re md s) q = compilations s q
      \<and> insertions (after re md s) q = insertions s q
      \<and> cache (after re md s) q = cache s q"
    if h: "\<forall>k e. (k, Some e) \<in> set md \<longrightarrow>
          \<not> (Type e = MatchString_REGEX \<and> ValueType e = MatchString_TEXT
             \<and> StringValue_GetValue (Value e) = q \<and> q \<noteq> MatchAll)" for q
  proof -
    have "\<forall>(k, m) \<in> set md. regexText m \<noteq> Some q"
      using h by (auto simp: regexText_Some_iff)
    from range_other_text [OF this, of re s] show ?thesis by (simp add: build_eq_range)
  qed
  have all_exact: "after re md s = s"
    if h: "\<forall>k e. (k, Some e) \<in> set md \<longrightarrow> Type e = MatchString_EXACT"
  proof -
    have "\<forall>(k, m) \<in> set md. regexText m = None"
      using h by (auto simp: regexText_def split: option.splits)
    from range_plain [OF this, of re s] show ?thesis by (simp add: build_eq_range)
  qed
  have star: "compilations (after re md s) MatchAll = compilations s MatchAll
      \<and> insertions (after re md s) MatchAll = insertions s MatchAll
      \<and> cache (after re md s) MatchAll = cache s MatchAll"
    by (rule other) simp
  show ?thesis using wild exact other [of p] star all_exact by blast
qed

theorem only_regex_text_compiled_witness:
  "visit sample_re (sample_regex ''*'') new_run = (Continue, new_run)
   \<and> snd (visit sample_re (sample_exact ''a.*(b|c)+'') new_run) = new_run
   \<and> compilations (after sample_re
        [(''k1'', sample_exact ''a.*(b|c)+''), (''k2'', sample_regex ''^foo.*'')] new_run)
        ''a.*(b|c)+'' = 0
   \<and> cache (after sample_re
        [(''k1'', sample_exact ''a.*(b|c)+''), (''k2'', sample_regex ''^foo.*'')] new_run)
        ''a.*(b|c)+'' = None
   \<and> after sample_re [(''k1'', sample_exact ''a.*(b|c)+''), (''k2'', sample_exact ''(unclosed'')]
        new_run = new_run"
proof -
  let ?e = "\<lparr>Type = MatchString_EXACT, Value = Some ''a.*(b|c)+'',
              ValueType = MatchString_TEXT\<rparr>"
  let ?md = "[(''k1'', sample_exact ''a.*(b|c)+''), (''k2'', sample_regex ''^foo.*'')]"
  let ?mx = "[(''k1'', sample_exact ''a.*(b|c)+''), (''k2'', sample_exact ''(unclosed'')]"
  have w: "StringValue_GetValue (MatchString_GetValue (sample_regex ''*'')) = MatchAll"
    by (simp add: sample_regex_def MatchString_GetValue_def StringValue_GetValue_def MatchAll_def)
  have e: "Type ?e = MatchString_EXACT" by simp
  have none: "\<forall>k e. (k, Some e) \<in> set ?md \<longrightarrow>
          \<not> (Type e = MatchString_REGEX \<and> ValueType e = MatchString_TEXT
             \<and> StringValue_GetValue (Value e) = ''a.*(b|c)+'' \<and> ''a.*(b|c)+'' \<noteq> MatchAll)"
    by (auto simp: sample_exact_def sample_regex_def StringValue_GetValue_def)
  have allx: "\<forall>k e. (k, Some e) \<in> set ?mx \<longrightarrow> Type e = MatchString_EXACT"
    by (auto simp: sample_exact_def)
  have start: "compilations new_run ''a.*(b|c)+'' = 0" "cache new_run ''a.*(b|c)+'' = None"
    by (simp_all add: compilations_def new_run_def NewRuleCache_def)
  note t1 = only_regex_text_compiled [where m = "sample_regex ''*''" and re = sample_re
      and s = new_run and mv = ?e and md = ?md and p = "''a.*(b|c)+''"]
  note t2 = only_regex_text_compiled [where m = "sample_regex ''*''" and re = sample_re
      and s = new_run and mv = ?e and md = ?mx and p = "''a.*(b|c)+''"]
  have a: "visit sample_re (sample_regex ''*'') new_run = (Continue, new_run)"
    using t1 w by blast
  have b: "snd (visit sample_re (sample_exact ''a.*(b|c)+'') new_run) = new_run"
    using t1 e by (simp add: sample_exact_def)
  have c: "compilations (after sample_re ?md new_run) ''a.*(b|c)+'' = 0
      \<and> cache (after sample_re ?md new_run) ''a.*(b|c)+'' = None"
    using t1 none start by simp
  have d: "after sample_re ?mx new_run = new_run"
    using t2 allx by blast
  show ?thesis using a b c d by simp
qed

text \<open>
  C10. A build that returns an error does not roll the cache back. Whatever a
  build returns, every matcher the cache held before is still there afterwards;
  and when the build of metadata fails, the matchers inserted for a prefix of
  the iteration that was processed without failure are all in the cache the
  failed build leaves behind.
\<close>

theorem failed_build_keeps_matchers:
  "cache s \<subseteq>\<^sub>m cache (after re md s)
   \<and> (fst (buildCacheFromMatcher re (xs @ ys) s) = Return (Some err)
        \<and> fst (buildCacheFromMatcher re xs s) = Return None \<longrightarrow>
        cache (after re xs s) \<subseteq>\<^sub>m cache (after re (xs @ ys) s))"
proof -
  have a: "cache s \<subseteq>\<^sub>m cache (after re md s)"
    using range_cache_le [of s re md] by (simp add: build_eq_range)
  have b: "cache (after re xs s) \<subseteq>\<^sub>m cache (after re (xs @ ys) s)"
    if "fst (buildCacheFromMatcher re xs s) = Return None"
    using that range_cache_le [of "snd (range_metadata re xs s)" re ys]
    by (simp add: build_eq_range range_append)
  show ?thesis using a b by blast
qed

theorem failed_build_keeps_matchers_witness:
  "fst (buildCacheFromMatcher sample_re
       ([(''k1'', sample_regex ''^foo.*'')] @ [(''k2'', sample_regex ''(unclosed'')]) new_run)
     = Return (Some ''invalid regex expression (unclosed, error is missing closing )'')
   \<and> fst (buildCacheFromMatcher sample_re [(''k1'', sample_regex ''^foo.*'')] new_run) = Return None
   \<and> cache (after sample_re [(''k1'', sample_regex ''^foo.*'')] new_run) ''^foo.*''
       = Some (Regexp 0 ''^foo.*'')
   \<and> cache (after sample_re
       ([(''k1'', sample_regex ''^foo.*'')] @ [(''k2'', sample_regex ''(unclosed'')]) new_run)
       ''^foo.*'' = Some (Regexp 0 ''^foo.*'')"
proof -
  let ?xs = "[(''k1'', sample_regex ''^foo.*'')]"
  let ?ys = "[(''k2'', sample_regex ''(unclosed'')]"
  have failed: "fst (buildCacheFromMatcher sample_re (?xs @ ?ys) new_run)
      = Return (Some ''invalid regex expression (unclosed, error is missing closing )'')"
    by (simp add: buildCacheFromMatcher_def visit_def sample_regex_def sample_re_def
        new_run_def NewRuleCache_def GetRegexMatcher_def PutRegexMatcher_def
        regexp_Compile_def ruleCache_PutRegexMatcher_def MatchString_GetValue_def
        StringValue_GetValue_def MatchAll_def errInvalidRegex_def Let_def)
  have prefix: "buildCacheFromMatcher sample_re ?xs new_run =
      (Return None,
       \<lparr>cache = [''^foo.*'' \<mapsto> Regexp 0 ''^foo.*''], compileCalls = [''^foo.*''],
        putCalls = [(''^foo.*'', Regexp 0 ''^foo.*'')]\<rparr>)"
    by (simp add: buildCacheFromMatcher_def visit_def sample_regex_def sample_re_def
        new_run_def NewRuleCache_def GetRegexMatcher_def PutRegexMatcher_def
        regexp_Compile_def ruleCache_PutRegexMatcher_def MatchString_GetValue_def
        StringValue_GetValue_def MatchAll_def Let_def)
  have "cache (after sample_re ?xs new_run) \<subseteq>\<^sub>m cache (after sample_re (?xs @ ?ys) new_run)"
    using failed_build_keeps_matchers [where re = sample_re and xs = ?xs and ys = ?ys
        and s = new_run] failed prefix by simp
  then have "cache (after sample_re (?xs @ ?ys) new_run) ''^foo.*'' = Some (Regexp 0 ''^foo.*'')"
    using prefix by (auto simp: map_le_def dom_def)
  then show ?thesis using failed prefix by simp
qed

section \<open>Properties of the rule document\<close>

text \<open>
  C1. A document constructed from a nil response is the zero document: it is
  not initialized and its namespace and service are empty. Its assistant is nil,
  so ValidateAndBuildCache on it panics where the claim asks for a call that
  never panics.
\<close>

theorem uninitialized_document_validate_panics:
  "NewServiceRuleInProto pkg None = Return (zero_ServiceRuleInProto pkg)
   \<and> IsInitialized (zero_ServiceRuleInProto pkg) = False
   \<and> GetNamespace (zero_ServiceRuleInProto pkg) = Return []
   \<and> GetService (zero_ServiceRuleInProto pkg) = Return []
   \<and> ValidateAndBuildCache (zero_ServiceRuleInProto pkg) = Panic"
  by (simp add: NewServiceRuleInProto_def zero_ServiceRuleInProto_def IsInitialized_def
      GetNamespace_def GetService_def ValidateAndBuildCache_def)

text \<open>
  C2, as stated, fails: a validation that succeeds after one that failed leaves
  the recorded error in place. The document is the one constructed from a
  routing response; its first validation fails, its second succeeds, and
  GetValidateError still returns the error of the first.
\<close>

theorem validate_error_not_cleared_counterexample:
  "NewServiceRuleInProto sample_package (Some (sample_response 1)) = Return routing_doc
   \<and> ValidateAndBuildCache routing_doc = Return (Some ''matcher not cached'', routing_doc_failed)
   \<and> ValidateAndBuildCache routing_doc_failed = Return (None, routing_doc_failed)
   \<and> GetValidateError routing_doc_failed = Some ''matcher not cached''"
proof -
  have parse: "ParseRuleValue warming_assistant r = (Some (), ''rev-1'')" for r
    by (simp add: warming_assistant_def)
  have dflt: "SetDefault warming_assistant message = message" for message
    by (simp add: warming_assistant_def)
  have cold: "Validate warming_assistant message (Some NewRuleCache) =
      (Some ''matcher not cached'', Some (NewRuleCache(''a.*'' \<mapsto> Regexp 0 ''a.*'')))"
    for message
    by (simp add: warming_assistant_def NewRuleCache_def GetRegexMatcher_def PutRegexMatcher_def)
  have warm: "Validate warming_assistant message
        (Some (NewRuleCache(''a.*'' \<mapsto> Regexp 0 ''a.*''))) =
      (None, Some (NewRuleCache(''a.*'' \<mapsto> Regexp 0 ''a.*'')))"
    for message
    by (simp add: warming_assistant_def GetRegexMatcher_def)
  have new: "NewServiceRuleInProto sample_package (Some (sample_response 1)) = Return routing_doc"
    by (simp add: NewServiceRuleInProto_def zero_ServiceRuleInProto_def sample_package_def
        sample_response_def routing_doc_def eventTypeToAssistant_def
        DiscoverResponse_GetType_def StringValue_GetValue_def parse Let_def)
  have first: "ValidateAndBuildCache routing_doc =
      Return (Some ''matcher not cached'', routing_doc_failed)"
    by (simp add: ValidateAndBuildCache_def routing_doc_def routing_doc_failed_def dflt cold
        Let_def)
  have second: "ValidateAndBuildCache routing_doc_failed = Return (None, routing_doc_failed)"
    by (simp add: ValidateAndBuildCache_def routing_doc_def routing_doc_failed_def dflt warm
        Let_def)
  have still: "GetValidateError routing_doc_failed = Some ''matcher not cached''"
    by (simp add: GetValidateError_def routing_doc_failed_def)
  show ?thesis using new first second still by simp
qed

text \<open>
  C2, amended. On a document with an assistant, ValidateAndBuildCache returns
  what the assistant's Validate returns (after SetDefault). When that is an
  error, GetValidateError returns it afterwards, replacing what was recorded;
  when it is nil, GetValidateError returns what it returned before the call. So
  on a document with no error recorded, as a constructed one, GetValidateError
  after the call is the outcome of the call.
\<close>

theorem validate_error_recorded:
  assumes "assistant s = Some a"
  shows "\<exists>s'. ValidateAndBuildCache s =
            Return (fst (Validate a (SetDefault a (ruleValue s)) (ruleCache s)), s')
          \<and> GetValidateError s' =
              (case fst (Validate a (SetDefault a (ruleValue s)) (ruleCache s)) of
                 Some err \<Rightarrow> Some err
               | None \<Rightarrow> GetValidateError s)
          \<and> (GetValidateError s = None \<longrightarrow>
               GetValidateError s' = fst (Validate a (SetDefault a (ruleValue s)) (ruleCache s)))"
  using assms
  by (cases "fst (Validate a (SetDefault a (ruleValue s)) (ruleCache s))")
     (simp_all add: ValidateAndBuildCache_def GetValidateError_def Let_def)

theorem validate_error_recorded_witness:
  "assistant routing_doc = Some warming_assistant
   \<and> GetValidateError routing_doc = None
   \<and> (\<exists>s'. ValidateAndBuildCache routing_doc = Return (Some ''matcher not cached'', s')
          \<and> GetValidateError s' = Some ''matcher not cached'')"
proof -
  have h: "assistant routing_doc = Some warming_assistant"
    by (simp add: routing_doc_def)
  have n: "GetValidateError routing_doc = None"
    by (simp add: routing_doc_def GetValidateError_def)
  have v: "fst (Validate warming_assistant (SetDefault warming_assistant (ruleValue routing_doc))
                 (ruleCache routing_doc)) = Some ''matcher not cached''"
    by (simp add: routing_doc_def warming_assistant_def NewRuleCache_def GetRegexMatcher_def)
  show ?thesis
    using validate_error_recorded [OF h] h n v by simp
qed

text \<open>
  C7, as stated, fails: a response whose kind has no entry in the dispatch table
  makes the construction panic (the assistant looked up is nil and its
  ParseRuleValue is called).
\<close>

theorem construction_unknown_kind_counterexample:
  "eventTypeToAssistant sample_package
      (GetEventType sample_package (DiscoverResponse_GetType (sample_response 0))) = None
   \<and> NewServiceRuleInProto sample_package (Some (sample_response 0)) = Panic"
  by (simp add: NewServiceRuleInProto_def zero_ServiceRuleInProto_def sample_package_def
      sample_response_def eventTypeToAssistant_def DiscoverResponse_GetType_def Let_def)

text \<open>
  C7, amended. Construction from a nil response returns the zero document.
  Construction from a response that carries a service and whose kind is
  EventRouting or EventRateLimiting returns an initialized document. The
  dispatch table has entries for these two kinds only, and construction from a
  response of any other kind panics.
\<close>

theorem construction_outcomes:
  "NewServiceRuleInProto pkg None = Return (zero_ServiceRuleInProto pkg)
   \<and> (resp_Service r \<noteq> None
        \<and> GetEventType pkg (DiscoverResponse_GetType r) \<in> {EventRouting, EventRateLimiting} \<longrightarrow>
        (\<exists>doc. NewServiceRuleInProto pkg (Some r) = Return doc \<and> IsInitialized doc))
   \<and> (eventTypeToAssistant pkg kind = None \<longleftrightarrow> kind \<notin> {EventRouting, EventRateLimiting})
   \<and> (GetEventType pkg (DiscoverResponse_GetType r) \<notin> {EventRouting, EventRateLimiting} \<longrightarrow>
        NewServiceRuleInProto pkg (Some r) = Panic)"
proof -
  have a: "NewServiceRuleInProto pkg None = Return (zero_ServiceRuleInProto pkg)"
    by (simp add: NewServiceRuleInProto_def zero_ServiceRuleInProto_def)
  have t: "eventTypeToAssistant pkg kind = None \<longleftrightarrow> kind \<notin> {EventRouting, EventRateLimiting}"
    for kind
    by (simp add: eventTypeToAssistant_def)
  have b: "\<exists>doc. NewServiceRuleInProto pkg (Some r) = Return doc \<and> IsInitialized doc"
    if h: "resp_Service r \<noteq> None"
      "GetEventType pkg (DiscoverResponse_GetType r) \<in> {EventRouting, EventRateLimiting}"
  proof -
    obtain svc where svc: "resp_Service r = Some svc" using h(1) by auto
    obtain x where x: "eventTypeToAssistant pkg (GetEventType pkg (DiscoverResponse_GetType r))
        = Some x"
      using h(2) t [of "GetEventType pkg (DiscoverResponse_GetType r)"] by auto
    show ?thesis
      by (simp add: NewServiceRuleInProto_def svc x Let_def IsInitialized_def)
  qed
  have c: "NewServiceRuleInProto pkg (Some r) = Panic"
    if h: "GetEventType pkg (DiscoverResponse_GetType r) \<notin> {EventRouting, EventRateLimiting}"
  proof -
    have "eventTypeToAssistant pkg (GetEventType pkg (DiscoverResponse_GetType r)) = None"
      using h t by blast
    then show ?thesis
      by (simp add: NewServiceRuleInProto_def Let_def split: option.splits)
  qed
  show ?thesis using a b c t by blast
qed

theorem construction_outcomes_witness:
  "resp_Service (sample_response 2) \<noteq> None
   \<and> GetEventType sample_package (DiscoverResponse_GetType (sample_response 2)) = EventRateLimiting
   \<and> (\<exists>doc. NewServiceRuleInProto sample_package (Some (sample_response 2)) = Return doc
          \<and> IsInitialized doc)
   \<and> GetEventType sample_package (DiscoverResponse_GetType (sample_response 7)) = EventOther 7
   \<and> NewServiceRuleInProto sample_package (Some (sample_response 7)) = Panic"
proof -
  have s2: "resp_Service (sample_response 2) \<noteq> None"
    by (simp add: sample_response_def)
  have k2: "GetEventType sample_package (DiscoverResponse_GetType (sample_response 2))
      = EventRateLimiting"
    by (simp add: sample_package_def sample_response_def DiscoverResponse_GetType_def)
  have k7: "GetEventType sample_package (DiscoverResponse_GetType (sample_response 7))
      = EventOther 7"
    by (simp add: sample_package_def sample_response_def DiscoverResponse_GetType_def)
  have a: "\<exists>doc. NewServiceRuleInProto sample_package (Some (sample_response 2)) = Return doc
          \<and> IsInitialized doc"
    using construction_outcomes [where pkg = sample_package and r = "sample_response 2"] s2 k2
    by simp
  have b: "NewServiceRuleInProto sample_package (Some (sample_response 7)) = Panic"
    using construction_outcomes [where pkg = sample_package and r = "sample_response 7"] k7
    by simp
  show ?thesis using s2 k2 k7 a b by simp
qed

text \<open>
  C8, as stated, fails: not every non-nil response yields a document. For a
  response with a service whose kind is outside the dispatch table no assistant
  is selected and no document is returned.
\<close>

theorem constructed_state_counterexample:
  "resp_Service (sample_response 5) \<noteq> None
   \<and> NewServiceRuleInProto sample_package (Some (sample_response 5)) = Panic"
  by (simp add: NewServiceRuleInProto_def zero_ServiceRuleInProto_def sample_package_def
      sample_response_def eventTypeToAssistant_def DiscoverResponse_GetType_def Let_def)

text \<open>
  C8, amended. For every response that carries a service and for whose kind the
  dispatch table has an assistant, the construction returns a document that is
  initialized, whose namespace and service are the ones of the response's
  service, whose kind is the kind of the response, whose payload and revision
  are what that assistant's ParseRuleValue returns for the response, whose
  cache is a new, empty rule cache, and which records no validation error.
\<close>

theorem constructed_document:
  assumes "resp_Service r = Some svc"
    and "eventTypeToAssistant pkg (GetEventType pkg (DiscoverResponse_GetType r)) = Some a"
  shows "\<exists>doc. NewServiceRuleInProto pkg (Some r) = Return doc
          \<and> IsInitialized doc
          \<and> GetNamespace doc = Return (StringValue_GetValue (svc_Namespace svc))
          \<and> GetService doc = Return (StringValue_GetValue (svc_Name svc))
          \<and> GetType doc = GetEventType pkg (DiscoverResponse_GetType r)
          \<and> assistant doc = Some a
          \<and> GetValue doc = fst (ParseRuleValue a r)
          \<and> GetRevision doc = snd (ParseRuleValue a r)
          \<and> GetRuleCache doc = Some NewRuleCache
          \<and> NewRuleCache = Map.empty
          \<and> GetValidateError doc = None
          \<and> IsCacheLoaded doc = False"
  using assms
  by (simp add: NewServiceRuleInProto_def zero_ServiceRuleInProto_def Let_def
      IsInitialized_def GetNamespace_def GetService_def GetType_def GetValue_def
      GetRevision_def GetRuleCache_def GetValidateError_def IsCacheLoaded_def NewRuleCache_def)

theorem constructed_document_witness:
  "resp_Service (sample_response 2)
     = Some \<lparr>svc_Namespace = Some ''Test'', svc_Name = Some ''svc''\<rparr>
   \<and> eventTypeToAssistant sample_package
       (GetEventType sample_package (DiscoverResponse_GetType (sample_response 2)))
     = Some plain_assistant
   \<and> (\<exists>doc. NewServiceRuleInProto sample_package (Some (sample_response 2)) = Return doc
          \<and> IsInitialized doc
          \<and> GetNamespace doc = Return ''Test''
          \<and> GetService doc = Return ''svc''
          \<and> GetType doc = EventRateLimiting
          \<and> GetValue doc = Some ()
          \<and> GetRevision doc = ''rev-1''
          \<and> GetRuleCache doc = Some Map.empty
          \<and> GetValidateError doc = None)"
proof -
  have h1: "resp_Service (sample_response 2)
     = Some \<lparr>svc_Namespace = Some ''Test'', svc_Name = Some ''svc''\<rparr>"
    by (simp add: sample_response_def)
  have h2: "eventTypeToAssistant sample_package
       (GetEventType sample_package (DiscoverResponse_GetType (sample_response 2)))
     = Some plain_assistant"
    by (simp add: eventTypeToAssistant_def sample_package_def sample_response_def
        DiscoverResponse_GetType_def)
  have k: "GetEventType sample_package (DiscoverResponse_GetType (sample_response 2))
      = EventRateLimiting"
    by (simp add: sample_package_def sample_response_def DiscoverResponse_GetType_def)
  have p: "ParseRuleValue plain_assistant (sample_response 2) = (Some (), ''rev-1'')"
    by (simp add: plain_assistant_def)
  obtain doc where doc:
    "NewServiceRuleInProto sample_package (Some (sample_response 2)) = Return doc"
    "IsInitialized doc"
    "GetNamespace doc = Return (StringValue_GetValue (Some ''Test''))"
    "GetService doc = Return (StringValue_GetValue (Some ''svc''))"
    "GetType doc = GetEventType sample_package (DiscoverResponse_GetType (sample_response 2))"
    "GetValue doc = fst (ParseRuleValue plain_assistant (sample_response 2))"
    "GetRevision doc = snd (ParseRuleValue plain_assistant (sample_response 2))"
    "GetRuleCache doc = Some NewRuleCache" "NewRuleCache = Map.empty"
    "GetValidateError doc = None"
    using constructed_document [OF h1 h2] by auto
  have "NewServiceRuleInProto sample_package (Some (sample_response 2)) = Return doc
          \<and> IsInitialized doc
          \<and> GetNamespace doc = Return ''Test''
          \<and> GetService doc = Return ''svc''
          \<and> GetType doc = EventRateLimiting
          \<and> GetValue doc = Some ()
          \<and> GetRevision doc = ''rev-1''
          \<and> GetRuleCache doc = Some Map.empty
          \<and> GetValidateError doc = None"
    using doc k p by (simp add: StringValue_GetValue_def)
  then show ?thesis using h1 h2 by blast
qed

end
